theory Spec2Isabelle
  imports Complex_Main "HOL-Library.Word"
begin

section \<open>JavaScript text\<close>

text \<open>
  A JavaScript string is a sequence of UTF-16 code units. String literals of the
  sources are written with \<open>js\<close>; characters outside ASCII (the emoji of the tool
  texts) are written as their code units.
\<close>

type_synonym jsstring = "nat list"

definition js :: "string \<Rightarrow> jsstring" where
  "js s = map of_char s"

text \<open>\<open>Array.prototype.join\<close> on an array of strings.\<close>

fun join :: "jsstring \<Rightarrow> jsstring list \<Rightarrow> jsstring" where
  "join sep [] = []"
| "join sep [x] = x"
| "join sep (x # y # ys) = x @ sep @ join sep (y # ys)"

section \<open>Requirement trees\<close>

text \<open>
  The shape \<open>display.requirement\<close> (demo_requirements.ts) and the \<open>requires\<close>
  fields of the servers work on: a capability leaf, a permission leaf with one of four
  sub-types, \<open>anyOf\<close>, \<open>allOf\<close>, \<open>not\<close>, and anything else.
\<close>

datatype permission =
    PScope jsstring
  | PClaim jsstring jsstring
  | PResource jsstring jsstring
  | PInput "jsstring option" jsstring

datatype requirement =
    Capability jsstring
  | Permission permission
  | AnyOf "requirement list"
  | AllOf "requirement list"
  | Not requirement
  | UnknownReq

section \<open>The OAuth demo server (toolWithOAuthServer.ts)\<close>

text \<open>
  The module state is the variable \<open>currentScopes\<close>; \<open>console.log\<close> output is kept
  as a list of lines. A tool callback takes the validated arguments and the state and
  returns the tool result with the state after it.
\<close>

record server_state =
  currentScopes :: "jsstring list"
  console :: "jsstring list"

datatype content = TextContent jsstring

record tool_result =
  content :: "content list"
  isError :: "bool option"

definition initial_server :: server_state where
  "initial_server = \<lparr>currentScopes = [], console = []\<rparr>"

definition hasScope :: "server_state \<Rightarrow> jsstring \<Rightarrow> bool" where
  "hasScope st requiredScope = (requiredScope \<in> set (currentScopes st))"

definition readUserProfile :: "jsstring \<Rightarrow> server_state \<Rightarrow> tool_result \<times> server_state" where
  "readUserProfile userId st =
     (if \<not> hasScope st (js ''user:read'') then
        (\<lparr>content = [TextContent (0x274C # js '' Access denied: Missing required scope 'user:read'' @ [39])],
          isError = Some True\<rparr>, st)
      else
        (\<lparr>content = [TextContent (0x2705 # js '' User Profile for '' @ userId
             @ js '':'' @ [10] @ js ''- Name: John Doe'' @ [10] @ js ''- Email: john@example.com''
             @ [10] @ js ''- Role: User'')],
          isError = None\<rparr>, st))"

definition deleteUser :: "jsstring \<Rightarrow> server_state \<Rightarrow> tool_result \<times> server_state" where
  "deleteUser userId st =
     (if \<not> hasScope st (js ''admin:users:delete'') then
        (\<lparr>content = [TextContent (0x274C # js '' Access denied: Missing required scope 'admin:users:delete'' @ [39])],
          isError = Some True\<rparr>, st)
      else
        (\<lparr>content = [TextContent (0x2705 # js '' User '' @ userId @ js '' has been deleted successfully'')],
          isError = None\<rparr>, st))"

text \<open>
  \<open>amount\<close> is a number; its rendering in the success text is the decimal numeral of
  an integer amount (the formatting of fractional amounts is floating point and stays
  outside the model).
\<close>

function digits :: "nat \<Rightarrow> jsstring" where
  "digits n = (if n < 10 then [0x30 + n] else digits (n div 10) @ [0x30 + n mod 10])"
  by pat_completeness auto
termination
  by (relation "measure id") auto

declare digits.simps [simp del]

definition show_int :: "int \<Rightarrow> jsstring" where
  "show_int i = (if i < 0 then 0x2D # digits (nat (- i)) else digits (nat i))"

definition transferFunds ::
  "jsstring \<Rightarrow> jsstring \<Rightarrow> int \<Rightarrow> server_state \<Rightarrow> tool_result \<times> server_state" where
  "transferFunds fromAccount toAccount amount st =
     (if \<not> hasScope st (js ''accounts:read'') \<or> \<not> hasScope st (js ''accounts:write'') then
        (let missingScopes = [];
             missingScopes = (if \<not> hasScope st (js ''accounts:read'')
                              then missingScopes @ [js ''accounts:read''] else missingScopes);
             missingScopes = (if \<not> hasScope st (js ''accounts:write'')
                              then missingScopes @ [js ''accounts:write''] else missingScopes)
         in (\<lparr>content = [TextContent (0x274C # js '' Access denied: Missing required scopes: ''
                  @ join (js '', '') missingScopes)],
              isError = Some True\<rparr>, st))
      else
        (\<lparr>content = [TextContent (0x2705 # js '' Transferred $'' @ show_int amount
             @ js '' from '' @ fromAccount @ js '' to '' @ toAccount)],
          isError = None\<rparr>, st))"

definition updateClientScopes :: "jsstring list \<Rightarrow> server_state \<Rightarrow> tool_result \<times> server_state" where
  "updateClientScopes scopes st =
     (let st1 = st\<lparr>currentScopes := scopes\<rparr>;
          st2 = st1\<lparr>console := console st1 @
                  [[0xD83D, 0xDD04] @ js '' Client scopes updated: '' @ join (js '', '') scopes]\<rparr>
      in (\<lparr>content = [TextContent (js ''OAuth scopes updated: '' @ join (js '', '') scopes)],
           isError = None\<rparr>, st2))"

text \<open>The part of \<open>main\<close> that touches the module state (before the transport connects).\<close>

definition server_main :: "server_state \<Rightarrow> server_state" where
  "server_main st =
     (let st1 = st\<lparr>currentScopes := [js ''user:read'']\<rparr>
      in st1\<lparr>console := console st1 @
            [[0xD83D, 0xDD11] @ js '' Server initialized with client scopes: ''
               @ join (js '', '') (currentScopes st1)]\<rparr>)"

text \<open>
  What \<open>registerTool\<close> is given for each tool, in registration order: the name and the
  \<open>requires\<close> field (\<open>None\<close> where the configuration has none).
\<close>

definition registeredTools :: "(jsstring \<times> requirement list option) list" where
  "registeredTools =
     [(js ''readUserProfile'', Some [Permission (PScope (js ''user:read''))]),
      (js ''deleteUser'', Some [Permission (PScope (js ''admin:users:delete''))]),
      (js ''transferFunds'',
         Some [AllOf [Permission (PScope (js ''accounts:read'')),
                      Permission (PScope (js ''accounts:write''))]]),
      (js ''_updateClientScopes'', None)]"

definition tool_requires :: "jsstring \<Rightarrow> requirement list option option" where
  "tool_requires name = map_of registeredTools name"

section \<open>The evaluator of the specification\<close>

text \<open>
  The sources hold no requirement evaluator: each tool callback checks its scopes by
  hand. To compare a callback with the requirement it declares, the evaluator is written
  here after the specification.
\<close>

record caller_context =
  capabilities :: "jsstring set"
  scopes :: "jsstring set"
  claims :: "jsstring \<rightharpoonup> jsstring"
  resourcePermissions :: "jsstring \<rightharpoonup> jsstring set"
  inputs :: "jsstring \<rightharpoonup> jsstring"
  inputConvention :: "jsstring \<Rightarrow> bool"

text \<open>
  Modelled from the spec: the repository has no code that decides a permission leaf
  against a caller context. Section 4.1: a scope holds iff it is among the context's
  scopes, a claim iff the context maps its name to its value, a resource permission iff
  its value is among those the context holds for the URI, an input constraint iff the
  named input equals the value (with no property named: the caller-supplied convention).
\<close>

fun spec_permission :: "caller_context \<Rightarrow> permission \<Rightarrow> bool" where
  "spec_permission ctx (PScope v) = (v \<in> scopes ctx)"
| "spec_permission ctx (PClaim n v) = (claims ctx n = Some v)"
| "spec_permission ctx (PResource u v) =
     (case resourcePermissions ctx u of None \<Rightarrow> False | Some ps \<Rightarrow> v \<in> ps)"
| "spec_permission ctx (PInput (Some p) v) = (inputs ctx p = Some v)"
| "spec_permission ctx (PInput None v) = inputConvention ctx v"

text \<open>
  Modelled from the spec: the repository has no evaluator of requirement trees. Section
  4.1: the result is the verdict with the unmet leaves. \<open>allOf\<close> holds iff every child
  holds and collects the unmet leaves of all children; \<open>anyOf\<close> holds iff some child
  holds and reports the unmet leaves of all children when none does; \<open>not\<close> inverts the
  verdict of its child and reports the child itself as unmet. A tree of no known shape is
  unsatisfied.
\<close>

fun spec_evaluate :: "caller_context \<Rightarrow> requirement \<Rightarrow> bool \<times> requirement list" where
  "spec_evaluate ctx (Capability n) =
     (if n \<in> capabilities ctx then (True, []) else (False, [Capability n]))"
| "spec_evaluate ctx (Permission p) =
     (if spec_permission ctx p then (True, []) else (False, [Permission p]))"
| "spec_evaluate ctx (AnyOf cs) =
     (let rs = map (spec_evaluate ctx) cs
      in if list_ex fst rs then (True, []) else (False, concat (map snd rs)))"
| "spec_evaluate ctx (AllOf cs) =
     (let rs = map (spec_evaluate ctx) cs
      in (list_all fst rs, concat (map snd rs)))"
| "spec_evaluate ctx (Not c) =
     (if fst (spec_evaluate ctx c) then (False, [c]) else (True, []))"
| "spec_evaluate ctx UnknownReq = (False, [UnknownReq])"

text \<open>The caller context the server's state stands for: its scope list, and nothing else.\<close>

definition server_context :: "server_state \<Rightarrow> caller_context" where
  "server_context st =
     \<lparr>capabilities = {}, scopes = set (currentScopes st), claims = Map.empty,
      resourcePermissions = Map.empty, inputs = Map.empty, inputConvention = (\<lambda>_. False)\<rparr>"

section \<open>Buffers and UTF-8\<close>

text \<open>
  A chunk arrives as a \<open>Buffer\<close> of bytes, and \<open>handleData\<close> turns each chunk into text
  on its own with \<open>data.toString()\<close>. That is a UTF-8 decoder started afresh on every
  chunk: a byte that cannot continue or start a sequence, and a sequence cut short by
  the end of the buffer, come out as U+FFFD. The decoder keeps the code point under
  construction, the number of continuation bytes still needed, and the range allowed
  for the next byte.
\<close>

type_synonym byte = "8 word"

record utf8_state =
  code_point :: nat
  bytes_needed :: nat
  lower_boundary :: nat
  upper_boundary :: nat

definition utf8_initial :: utf8_state where
  "utf8_initial = \<lparr>code_point = 0, bytes_needed = 0, lower_boundary = 0x80, upper_boundary = 0xBF\<rparr>"

definition utf8_lead :: "nat \<Rightarrow> nat list \<times> utf8_state" where
  "utf8_lead x =
     (if x \<le> 0x7F then ([x], utf8_initial)
      else if 0xC2 \<le> x \<and> x \<le> 0xDF then
        ([], \<lparr>code_point = x - 0xC0, bytes_needed = 1, lower_boundary = 0x80, upper_boundary = 0xBF\<rparr>)
      else if 0xE0 \<le> x \<and> x \<le> 0xEF then
        ([], \<lparr>code_point = x - 0xE0, bytes_needed = 2,
              lower_boundary = (if x = 0xE0 then 0xA0 else 0x80),
              upper_boundary = (if x = 0xED then 0x9F else 0xBF)\<rparr>)
      else if 0xF0 \<le> x \<and> x \<le> 0xF4 then
        ([], \<lparr>code_point = x - 0xF0, bytes_needed = 3,
              lower_boundary = (if x = 0xF0 then 0x90 else 0x80),
              upper_boundary = (if x = 0xF4 then 0x8F else 0xBF)\<rparr>)
      else ([0xFFFD], utf8_initial))"

definition utf8_step :: "utf8_state \<Rightarrow> byte \<Rightarrow> nat list \<times> utf8_state" where
  "utf8_step st b =
     (if bytes_needed st = 0 then utf8_lead (unat b)
      else if unat b < lower_boundary st \<or> upper_boundary st < unat b then
        (0xFFFD # fst (utf8_lead (unat b)), snd (utf8_lead (unat b)))
      else if bytes_needed st = 1 then
        ([code_point st * 64 + (unat b - 0x80)], utf8_initial)
      else
        ([], \<lparr>code_point = code_point st * 64 + (unat b - 0x80),
              bytes_needed = bytes_needed st - 1, lower_boundary = 0x80, upper_boundary = 0xBF\<rparr>))"

fun utf8_decode :: "utf8_state \<Rightarrow> byte list \<Rightarrow> nat list" where
  "utf8_decode st [] = (if bytes_needed st = 0 then [] else [0xFFFD])"
| "utf8_decode st (b # bs) = fst (utf8_step st b) @ utf8_decode (snd (utf8_step st b)) bs"

text \<open>A code point as UTF-16 code units, and \<open>Buffer.prototype.toString\<close>.\<close>

fun utf16_units :: "nat \<Rightarrow> jsstring" where
  "utf16_units cp =
     (if cp < 0x10000 then [cp]
      else [0xD800 + (cp - 0x10000) div 0x400, 0xDC00 + (cp - 0x10000) mod 0x400])"

definition toString :: "byte list \<Rightarrow> jsstring" where
  "toString data = concat (map utf16_units (utf8_decode utf8_initial data))"

text \<open>
  Writing a string to a stream encodes it as UTF-8: surrogate pairs are joined, a lone
  surrogate is written as U+FFFD.
\<close>

fun utf16_decode :: "jsstring \<Rightarrow> nat list" where
  "utf16_decode [] = []"
| "utf16_decode (u # us) =
     (if 0xD800 \<le> u \<and> u \<le> 0xDBFF then
        (case us of
           [] \<Rightarrow> [0xFFFD]
         | l # rest \<Rightarrow>
             if 0xDC00 \<le> l \<and> l \<le> 0xDFFF
             then (0x10000 + (u - 0xD800) * 0x400 + (l - 0xDC00)) # utf16_decode rest
             else 0xFFFD # utf16_decode us)
      else if 0xDC00 \<le> u \<and> u \<le> 0xDFFF then 0xFFFD # utf16_decode us
      else u # utf16_decode us)"

definition utf8_bytes :: "nat \<Rightarrow> byte list" where
  "utf8_bytes cp =
     (if cp < 0x80 then [of_nat cp]
      else if cp < 0x800 then [of_nat (0xC0 + cp div 0x40), of_nat (0x80 + cp mod 0x40)]
      else if cp < 0x10000 then
        [of_nat (0xE0 + cp div 0x1000), of_nat (0x80 + cp div 0x40 mod 0x40), of_nat (0x80 + cp mod 0x40)]
      else
        [of_nat (0xF0 + cp div 0x40000), of_nat (0x80 + cp div 0x1000 mod 0x40),
         of_nat (0x80 + cp div 0x40 mod 0x40), of_nat (0x80 + cp mod 0x40)])"

definition utf8_encode :: "jsstring \<Rightarrow> byte list" where
  "utf8_encode s = concat (map utf8_bytes (utf16_decode s))"


section \<open>JSON\<close>

text \<open>
  The values \<open>JSON.parse\<close> returns and \<open>JSON.stringify\<close> takes. A number is kept as the
  exact value of its literal (the rounding to a double is not modelled). An object is
  the list of its members in the order they were written; reading a property takes the
  last member of that name.
\<close>

datatype json =
    JNull
  | JBool bool
  | JNum rat
  | JStr jsstring
  | JArr "json list"
  | JObj "(jsstring \<times> json) list"

datatype token =
    TLBrace | TRBrace | TLBrack | TRBrack | TColon | TComma
  | TString jsstring | TNumber rat | TTrue | TFalse | TNull

definition is_digit :: "nat \<Rightarrow> bool" where
  "is_digit c = (0x30 \<le> c \<and> c \<le> 0x39)"

definition hex_val :: "nat \<Rightarrow> nat option" where
  "hex_val c =
     (if 0x30 \<le> c \<and> c \<le> 0x39 then Some (c - 0x30)
      else if 0x61 \<le> c \<and> c \<le> 0x66 then Some (c - 0x61 + 10)
      else if 0x41 \<le> c \<and> c \<le> 0x46 then Some (c - 0x41 + 10)
      else None)"

fun hex4 :: "jsstring \<Rightarrow> nat option" where
  "hex4 (a # b # c # d # rest) =
     (case (hex_val a, hex_val b, hex_val c, hex_val d) of
        (Some x, Some y, Some z, Some w) \<Rightarrow> Some (((x * 16 + y) * 16 + z) * 16 + w)
      | _ \<Rightarrow> None)"
| "hex4 _ = None"

definition unescape :: "nat \<Rightarrow> nat option" where
  "unescape e =
     (if e = 0x22 then Some 0x22
      else if e = 0x5C then Some 0x5C
      else if e = 0x2F then Some 0x2F
      else if e = 0x62 then Some 0x08
      else if e = 0x66 then Some 0x0C
      else if e = 0x6E then Some 0x0A
      else if e = 0x72 then Some 0x0D
      else if e = 0x74 then Some 0x09
      else None)"

definition bump :: "nat \<Rightarrow> nat \<Rightarrow> (jsstring \<times> nat) option \<Rightarrow> (jsstring \<times> nat) option" where
  "bump x n r = (case r of None \<Rightarrow> None | Some (s, k) \<Rightarrow> Some (x # s, k + n))"

text \<open>
  The body of a string literal, after its opening quote: the string it denotes and the
  number of code units read, closing quote included.
\<close>

fun lex_string :: "jsstring \<Rightarrow> (jsstring \<times> nat) option" where
  "lex_string [] = None"
| "lex_string (c # cs) =
     (if c = 0x22 then Some ([], 1)
      else if c = 0x5C then
        (case cs of
           [] \<Rightarrow> None
         | e # es \<Rightarrow>
             if e = 0x75 then
               (case hex4 es of None \<Rightarrow> None | Some u \<Rightarrow> bump u 6 (lex_string (drop 4 es)))
             else
               (case unescape e of None \<Rightarrow> None | Some x \<Rightarrow> bump x 2 (lex_string es)))
      else if c < 0x20 then None
      else bump c 1 (lex_string cs))"

definition digits_val :: "jsstring \<Rightarrow> nat" where
  "digits_val ds = foldl (\<lambda>a c. a * 10 + (c - 0x30)) 0 ds"

text \<open>
  A number literal at the head of the text: its value and the number of code units
  read. The value is the exact decimal; the rounding to a double is not modelled.
\<close>

definition lex_number :: "jsstring \<Rightarrow> (rat \<times> nat) option" where
  "lex_number cs =
     (let neg = (cs \<noteq> [] \<and> hd cs = 0x2D);
          r0 = (if neg then tl cs else cs);
          ip = takeWhile is_digit r0;
          r1 = dropWhile is_digit r0;
          has_frac = (r1 \<noteq> [] \<and> hd r1 = 0x2E);
          fp = (if has_frac then takeWhile is_digit (tl r1) else []);
          r2 = (if has_frac then dropWhile is_digit (tl r1) else r1);
          has_exp = (r2 \<noteq> [] \<and> (hd r2 = 0x65 \<or> hd r2 = 0x45));
          r3 = (if has_exp then tl r2 else r2);
          eneg = (has_exp \<and> r3 \<noteq> [] \<and> hd r3 = 0x2D);
          r4 = (if has_exp \<and> r3 \<noteq> [] \<and> (hd r3 = 0x2D \<or> hd r3 = 0x2B) then tl r3 else r3);
          ep = (if has_exp then takeWhile is_digit r4 else []);
          r5 = (if has_exp then dropWhile is_digit r4 else r2)
      in if ip = [] \<or> (1 < length ip \<and> hd ip = 0x30) \<or> (has_frac \<and> fp = []) \<or> (has_exp \<and> ep = [])
         then None
         else Some ((if neg then - 1 else 1)
                      * (of_nat (digits_val ip) + of_nat (digits_val fp) / 10 ^ length fp)
                      * (if eneg then 1 / 10 ^ digits_val ep else 10 ^ digits_val ep),
                    length cs - length r5))"

text \<open>
  The token at the head of a text that does not start with white space, with the number
  of code units it takes.
\<close>

definition next_token :: "jsstring \<Rightarrow> (token \<times> nat) option" where
  "next_token cs =
     (case cs of
        [] \<Rightarrow> None
      | c # rest \<Rightarrow>
          if c = 0x7B then Some (TLBrace, 1)
          else if c = 0x7D then Some (TRBrace, 1)
          else if c = 0x5B then Some (TLBrack, 1)
          else if c = 0x5D then Some (TRBrack, 1)
          else if c = 0x3A then Some (TColon, 1)
          else if c = 0x2C then Some (TComma, 1)
          else if c = 0x22 then
            (case lex_string rest of None \<Rightarrow> None | Some (s, n) \<Rightarrow> Some (TString s, n + 1))
          else if c = 0x2D \<or> is_digit c then
            (case lex_number cs of None \<Rightarrow> None | Some (r, n) \<Rightarrow> Some (TNumber r, n))
          else if take 4 cs = js ''true'' then Some (TTrue, 4)
          else if take 5 cs = js ''false'' then Some (TFalse, 5)
          else if take 4 cs = js ''null'' then Some (TNull, 4)
          else None)"

definition is_json_space :: "nat \<Rightarrow> bool" where
  "is_json_space c = (c = 0x20 \<or> c = 0x09 \<or> c = 0x0A \<or> c = 0x0D)"

fun lex :: "jsstring \<Rightarrow> token list option" where
  "lex [] = Some []"
| "lex (c # cs) =
     (if is_json_space c then lex cs
      else
        (case next_token (c # cs) of
           None \<Rightarrow> None
         | Some (t, n) \<Rightarrow> (case lex (drop (n - 1) cs) of None \<Rightarrow> None | Some ts \<Rightarrow> Some (t # ts))))"

text \<open>
  The parser reads the tokens one by one and keeps the open arrays and objects on a
  stack: \<open>CArr\<close> with the elements read so far, \<open>CObj\<close> with the members read so far and
  the key whose value is being read.
\<close>

datatype container = CArr "json list" | CObj "(jsstring \<times> json) list" jsstring

datatype parser_state =
    PValue "container list"
  | PArrStart "container list"
  | PArrNext "json list" "container list"
  | PObjStart "container list"
  | PObjKey "(jsstring \<times> json) list" "container list"
  | PObjColon "(jsstring \<times> json) list" jsstring "container list"
  | PObjNext "(jsstring \<times> json) list" "container list"
  | PDone json

fun close_value :: "json \<Rightarrow> container list \<Rightarrow> parser_state" where
  "close_value v [] = PDone v"
| "close_value v (CArr es # cs) = PArrNext (es @ [v]) cs"
| "close_value v (CObj ms k # cs) = PObjNext (ms @ [(k, v)]) cs"

fun value_token :: "token \<Rightarrow> container list \<Rightarrow> parser_state option" where
  "value_token (TString s) cs = Some (close_value (JStr s) cs)"
| "value_token (TNumber r) cs = Some (close_value (JNum r) cs)"
| "value_token TTrue cs = Some (close_value (JBool True) cs)"
| "value_token TFalse cs = Some (close_value (JBool False) cs)"
| "value_token TNull cs = Some (close_value JNull cs)"
| "value_token TLBrack cs = Some (PArrStart cs)"
| "value_token TLBrace cs = Some (PObjStart cs)"
| "value_token _ cs = None"

fun parser_step :: "parser_state \<Rightarrow> token \<Rightarrow> parser_state option" where
  "parser_step (PValue cs) t = value_token t cs"
| "parser_step (PArrStart cs) t =
     (if t = TRBrack then Some (close_value (JArr []) cs) else value_token t (CArr [] # cs))"
| "parser_step (PArrNext es cs) t =
     (if t = TRBrack then Some (close_value (JArr es) cs)
      else if t = TComma then Some (PValue (CArr es # cs))
      else None)"
| "parser_step (PObjStart cs) t =
     (case t of TRBrace \<Rightarrow> Some (close_value (JObj []) cs)
              | TString k \<Rightarrow> Some (PObjColon [] k cs)
              | _ \<Rightarrow> None)"
| "parser_step (PObjKey ms cs) t =
     (case t of TString k \<Rightarrow> Some (PObjColon ms k cs) | _ \<Rightarrow> None)"
| "parser_step (PObjColon ms k cs) t =
     (if t = TColon then Some (PValue (CObj ms k # cs)) else None)"
| "parser_step (PObjNext ms cs) t =
     (if t = TRBrace then Some (close_value (JObj ms) cs)
      else if t = TComma then Some (PObjKey ms cs)
      else None)"
| "parser_step (PDone v) t = None"

fun parse_tokens :: "parser_state \<Rightarrow> token list \<Rightarrow> json option" where
  "parse_tokens st [] = (case st of PDone v \<Rightarrow> Some v | _ \<Rightarrow> None)"
| "parse_tokens st (t # ts) =
     (case parser_step st t of None \<Rightarrow> None | Some st' \<Rightarrow> parse_tokens st' ts)"

text \<open>\<open>JSON.parse\<close>: the value of a text, or \<open>None\<close> where it throws a \<open>SyntaxError\<close>.\<close>

definition JSON_parse :: "jsstring \<Rightarrow> json option" where
  "JSON_parse text = (case lex text of None \<Rightarrow> None | Some ts \<Rightarrow> parse_tokens (PValue []) ts)"

text \<open>
  \<open>JSON.stringify\<close>. A string is quoted with the escapes of ECMAScript's
  \<open>QuoteJSONString\<close> (a surrogate pair stays as it is, a lone surrogate is escaped). A
  number is rendered when it is a safe integer; the rendering of
  other numbers is floating point and is left out: the result is \<open>None\<close> there.
  Members are written in the order of the list.
\<close>

definition hex_digit :: "nat \<Rightarrow> nat" where
  "hex_digit n = (if n < 10 then 0x30 + n else 0x61 + (n - 10))"

definition unicode_escape :: "nat \<Rightarrow> jsstring" where
  "unicode_escape c =
     [0x5C, 0x75, hex_digit (c div 4096 mod 16), hex_digit (c div 256 mod 16),
      hex_digit (c div 16 mod 16), hex_digit (c mod 16)]"

definition quote_unit :: "nat \<Rightarrow> jsstring" where
  "quote_unit c =
     (if c = 0x22 then [0x5C, 0x22]
      else if c = 0x5C then [0x5C, 0x5C]
      else if c = 0x08 then [0x5C, 0x62]
      else if c = 0x0C then [0x5C, 0x66]
      else if c = 0x0A then [0x5C, 0x6E]
      else if c = 0x0D then [0x5C, 0x72]
      else if c = 0x09 then [0x5C, 0x74]
      else if c < 0x20 then unicode_escape c
      else if 0xDC00 \<le> c \<and> c \<le> 0xDFFF then unicode_escape c
      else [c])"

fun quote_body :: "jsstring \<Rightarrow> jsstring" where
  "quote_body [] = []"
| "quote_body (c # cs) =
     (if 0xD800 \<le> c \<and> c \<le> 0xDBFF then
        (case cs of
           [] \<Rightarrow> unicode_escape c
         | l # rest \<Rightarrow>
             if 0xDC00 \<le> l \<and> l \<le> 0xDFFF then c # l # quote_body rest
             else unicode_escape c @ quote_body cs)
      else quote_unit c @ quote_body cs)"

definition quote :: "jsstring \<Rightarrow> jsstring" where
  "quote s = [0x22] @ quote_body s @ [0x22]"

definition show_number :: "rat \<Rightarrow> jsstring option" where
  "show_number r =
     (if r = of_int \<lfloor>r\<rfloor> \<and> \<bar>r\<bar> < 2 ^ 53 then Some (show_int \<lfloor>r\<rfloor>) else None)"

fun JSON_stringify :: "json \<Rightarrow> jsstring option" where
  "JSON_stringify JNull = Some (js ''null'')"
| "JSON_stringify (JBool b) = Some (if b then js ''true'' else js ''false'')"
| "JSON_stringify (JNum r) = show_number r"
| "JSON_stringify (JStr s) = Some (quote s)"
| "JSON_stringify (JArr vs) =
     (let rs = map JSON_stringify vs
      in if None \<in> set rs then None
         else Some ([0x5B] @ join [0x2C] (map the rs) @ [0x5D]))"
| "JSON_stringify (JObj ms) =
     (let rs = map (\<lambda>m. map_option (\<lambda>s. quote (fst m) @ [0x3A] @ s) (JSON_stringify (snd m))) ms
      in if None \<in> set rs then None
         else Some ([0x7B] @ join [0x2C] (map the rs) @ [0x7D]))"

section \<open>The demo client's \<open>ServerHandler\<close> (demo_requirements.ts)\<close>

text \<open>
  \<open>String.prototype.trim\<close> removes white space and line terminators at both ends;
  \<open>split('\n')\<close> cuts a text at every line feed and always returns at least one piece.
\<close>

definition is_js_space :: "nat \<Rightarrow> bool" where
  "is_js_space c =
     (c = 0x09 \<or> c = 0x0A \<or> c = 0x0B \<or> c = 0x0C \<or> c = 0x0D \<or> c = 0x20 \<or> c = 0xA0
      \<or> c = 0x1680 \<or> (0x2000 \<le> c \<and> c \<le> 0x200A) \<or> c = 0x2028 \<or> c = 0x2029
      \<or> c = 0x202F \<or> c = 0x205F \<or> c = 0x3000 \<or> c = 0xFEFF)"

definition trim :: "jsstring \<Rightarrow> jsstring" where
  "trim s = rev (dropWhile is_js_space (rev (dropWhile is_js_space s)))"

fun split_nl :: "jsstring \<Rightarrow> jsstring list" where
  "split_nl [] = [[]]"
| "split_nl (c # cs) =
     (if c = 0x0A then [] # split_nl cs
      else (case split_nl cs of [] \<Rightarrow> [[c]] | l # ls \<Rightarrow> (c # l) # ls))"

text \<open>
  The keys of the \<open>handlers\<close> map are request ids (numbers or strings) and method names
  (strings); \<open>Map\<close> compares them by value and never equates a number with a string.
\<close>

datatype key = KNum rat | KStr jsstring

datatype js_error = SyntaxError jsstring | TypeError jsstring | RangeError jsstring | Error jsstring

fun message :: "js_error \<Rightarrow> jsstring" where
  "message (SyntaxError m) = m"
| "message (TypeError m) = m"
| "message (RangeError m) = m"
| "message (Error m) = m"

text \<open>
  A handler is either the closure \<open>waitForResponse\<close> builds around its promise and
  timer (\<open>Waiter n\<close>, for the \<open>n\<close>-th call of \<open>waitForResponse\<close>), or a function the caller
  passed to \<open>onResponse\<close> (\<open>Callback i f\<close>: its identity, and the exception it throws on an
  argument, if any; like the callbacks of the demo it does not touch the
  \<open>ServerHandler\<close>).
\<close>

datatype handler = Waiter nat | Callback nat "json \<Rightarrow> js_error option"

datatype settle = Pending | Resolved json | RejectedTimeout key

datatype timer_state = Armed | Cleared | Fired

text \<open>
  What one call of \<open>waitForResponse\<close> creates: the promise (\<open>outcome\<close>;
  \<open>RejectedTimeout id\<close> is the rejection with the error
  \<open>Timeout waiting for response id\<close>) and the timer with its delay in milliseconds.
\<close>

record wait =
  wkey :: key
  delay :: nat
  outcome :: settle
  timer :: timer_state

datatype console_line = Log jsstring | Err jsstring

text \<open>
  The state of a \<open>ServerHandler\<close>: its fields \<open>buffer\<close> and \<open>handlers\<close>; the chunks
  written to the server's \<open>stdin\<close> (\<open>None\<close> while there is no server process); the
  promises and timers of the calls of \<open>waitForResponse\<close>; the console; and the calls
  of handlers made so far, with their arguments.
\<close>

record client =
  buffer :: jsstring
  handlers :: "key \<rightharpoonup> handler"
  stdin :: "byte list list option"
  waits :: "wait list"
  out :: "console_line list"
  calls :: "(handler \<times> json) list"

definition new_ServerHandler :: client where
  "new_ServerHandler =
     \<lparr>buffer = [], handlers = Map.empty, stdin = None, waits = [], out = [], calls = []\<rparr>"

text \<open>\<open>start\<close>, as far as the state goes: there is a server process with a \<open>stdin\<close>.\<close>

definition start :: "client \<Rightarrow> client" where
  "start c = c\<lparr>stdin := Some []\<rparr>"

subsection \<open>Promises and timers\<close>

text \<open>
  \<open>resolve\<close> and \<open>reject\<close> settle a pending promise and do nothing to a settled one;
  \<open>clearTimeout\<close> disarms an armed timer and does nothing to one that fired.
\<close>

definition resolve :: "nat \<Rightarrow> json \<Rightarrow> client \<Rightarrow> client" where
  "resolve n v c =
     (if n < length (waits c) \<and> outcome (waits c ! n) = Pending
      then c\<lparr>waits := (waits c)[n := (waits c ! n)\<lparr>outcome := Resolved v\<rparr>]\<rparr>
      else c)"

definition reject :: "nat \<Rightarrow> client \<Rightarrow> client" where
  "reject n c =
     (if n < length (waits c) \<and> outcome (waits c ! n) = Pending
      then c\<lparr>waits := (waits c)[n := (waits c ! n)\<lparr>outcome := RejectedTimeout (wkey (waits c ! n))\<rparr>]\<rparr>
      else c)"

definition clearTimeout :: "nat \<Rightarrow> client \<Rightarrow> client" where
  "clearTimeout n c =
     (if n < length (waits c) \<and> timer (waits c ! n) = Armed
      then c\<lparr>waits := (waits c)[n := (waits c ! n)\<lparr>timer := Cleared\<rparr>]\<rparr>
      else c)"

text \<open>
  The deadline of the \<open>n\<close>-th wait elapses: the timer's callback runs if the timer is
  still armed, and rejects the promise.
\<close>

definition timer_fires :: "nat \<Rightarrow> client \<Rightarrow> client" where
  "timer_fires n c =
     (if n < length (waits c) \<and> timer (waits c ! n) = Armed
      then reject n (c\<lparr>waits := (waits c)[n := (waits c ! n)\<lparr>timer := Fired\<rparr>]\<rparr>)
      else c)"

subsection \<open>Registration\<close>

definition onResponse :: "key \<Rightarrow> handler \<Rightarrow> client \<Rightarrow> client" where
  "onResponse rid h c = c\<lparr>handlers := (handlers c)(rid \<mapsto> h)\<rparr>"

definition DEMO_TIMEOUT :: nat where
  "DEMO_TIMEOUT = 10000"

text \<open>
  \<open>waitForResponse\<close> returns the promise: here its index, with the state in which the
  timer is set and the closure is registered.
\<close>

definition waitForResponse :: "key \<Rightarrow> nat \<Rightarrow> client \<Rightarrow> nat \<times> client" where
  "waitForResponse rid timeout c =
     (let n = length (waits c);
          c1 = c\<lparr>waits := waits c @ [\<lparr>wkey = rid, delay = timeout, outcome = Pending, timer = Armed\<rparr>]\<rparr>
      in (n, onResponse rid (Waiter n) c1))"

subsection \<open>Incoming data\<close>

text \<open>Calling a handler: the call is recorded, then its body runs.\<close>

definition invoke :: "handler \<Rightarrow> json \<Rightarrow> client \<Rightarrow> client \<times> js_error option" where
  "invoke h v c =
     (let c1 = c\<lparr>calls := calls c @ [(h, v)]\<rparr>
      in case h of
           Waiter n \<Rightarrow> (resolve n v (clearTimeout n c1), None)
         | Callback i f \<Rightarrow> (c1, f v))"

text \<open>
  Modelled from the spec: the schemas \<open>JSONRPCResponseSchema\<close> and \<open>JSONRPCErrorSchema\<close>
  of types.js are not among the sources. Sections 3 and 6: a frame is an object with
  \<open>jsonrpc: "2.0"\<close>; a response has an \<open>id\<close> (a string or an integer) and either \<open>result\<close>
  or \<open>error\<close>, never both, and no \<open>method\<close>. A schema that accepts a value returns it.
\<close>

definition json_member :: "json \<Rightarrow> jsstring \<Rightarrow> json option" where
  "json_member v name = (case v of JObj ms \<Rightarrow> map_of (rev ms) name | _ \<Rightarrow> None)"

definition is_RequestId :: "json option \<Rightarrow> bool" where
  "is_RequestId v =
     (case v of Some (JStr s) \<Rightarrow> True | Some (JNum r) \<Rightarrow> r = of_int \<lfloor>r\<rfloor> | _ \<Rightarrow> False)"

definition is_JSONRPCResponse :: "json \<Rightarrow> bool" where
  "is_JSONRPCResponse v =
     (json_member v (js ''jsonrpc'') = Some (JStr (js ''2.0'')) \<and> is_RequestId (json_member v (js ''id''))
      \<and> json_member v (js ''result'') \<noteq> None \<and> json_member v (js ''error'') = None
      \<and> json_member v (js ''method'') = None)"

definition is_JSONRPCError :: "json \<Rightarrow> bool" where
  "is_JSONRPCError v =
     (json_member v (js ''jsonrpc'') = Some (JStr (js ''2.0'')) \<and> is_RequestId (json_member v (js ''id''))
      \<and> json_member v (js ''error'') \<noteq> None \<and> json_member v (js ''result'') = None
      \<and> json_member v (js ''method'') = None)"

text \<open>
  The nested \<open>try\<close> of \<open>processLine\<close>: the value validated as a response, else as an
  error response, else as it is; with the line a validator logs when it accepts.
\<close>

definition validate :: "json \<Rightarrow> json \<times> console_line list" where
  "validate rawResponse =
     (if is_JSONRPCResponse rawResponse then
        (rawResponse, [Log (0x2705 # js '' JSON-RPC response validated successfully'')])
      else if is_JSONRPCError rawResponse then
        (rawResponse, [Log (0x2705 # js '' JSON-RPC error response validated successfully'')])
      else (rawResponse, []))"

text \<open>
  Reading a property: of \<open>null\<close> it throws a \<open>TypeError\<close>; of an object it gives the
  json_member (the last one of that name), of any other JSON value \<open>undefined\<close> (\<open>None\<close>).
\<close>

definition read_property :: "json \<Rightarrow> jsstring \<Rightarrow> js_error + json option" where
  "read_property v name =
     (case v of
        JNull \<Rightarrow> Inl (TypeError (js ''Cannot read properties of null (reading '' @ [39] @ name @ [39] @ js '')''))
      | _ \<Rightarrow> Inr (json_member v name))"

fun truthy :: "json option \<Rightarrow> bool" where
  "truthy None = False"
| "truthy (Some JNull) = False"
| "truthy (Some (JBool b)) = b"
| "truthy (Some (JNum r)) = (r \<noteq> 0)"
| "truthy (Some (JStr s)) = (s \<noteq> [])"
| "truthy (Some (JArr vs)) = True"
| "truthy (Some (JObj ms)) = True"

text \<open>The value of \<open>responseObj.id || responseObj.method || ''\<close>.\<close>

definition route_value :: "json \<Rightarrow> js_error + json" where
  "route_value responseObj =
     (case read_property responseObj (js ''id'') of
        Inl e \<Rightarrow> Inl e
      | Inr i \<Rightarrow>
          (case (if truthy i then i else None) of
             Some v \<Rightarrow> Inr v
           | None \<Rightarrow>
               (case read_property responseObj (js ''method'') of
                  Inl e \<Rightarrow> Inl e
                | Inr m \<Rightarrow>
                    (case (if truthy m then m else None) of
                       Some v \<Rightarrow> Inr v
                     | None \<Rightarrow> Inr (JStr [])))))"

text \<open>\<open>handlers.get\<close>: only a number or a string can equal a key of the map.\<close>

definition as_key :: "json \<Rightarrow> key option" where
  "as_key v = (case v of JNum r \<Rightarrow> Some (KNum r) | JStr s \<Rightarrow> Some (KStr s) | _ \<Rightarrow> None)"

definition handlers_get :: "client \<Rightarrow> json \<Rightarrow> handler option" where
  "handlers_get c v = (case as_key v of None \<Rightarrow> None | Some k \<Rightarrow> handlers c k)"

text \<open>The \<open>catch\<close> of \<open>processLine\<close>: a \<open>SyntaxError\<close> is ignored, any other error is printed.\<close>

definition catch_error :: "js_error \<Rightarrow> client \<Rightarrow> client" where
  "catch_error e c =
     (case e of
        SyntaxError m \<Rightarrow> c
      | _ \<Rightarrow> c\<lparr>out := out c @ [Err (js ''Error processing response: '' @ message e)]\<rparr>)"

definition processLine :: "jsstring \<Rightarrow> client \<Rightarrow> client" where
  "processLine line c =
     (case JSON_parse line of
        None \<Rightarrow> catch_error (SyntaxError (js ''Unexpected token'')) c
      | Some rawResponse \<Rightarrow>
          (let validatedResponse = fst (validate rawResponse);
               c1 = c\<lparr>out := out c @ snd (validate rawResponse)\<rparr>
           in case route_value validatedResponse of
                Inl e \<Rightarrow> catch_error e c1
              | Inr k \<Rightarrow>
                  (case handlers_get c1 k of
                     None \<Rightarrow> c1
                   | Some h \<Rightarrow>
                       (case invoke h validatedResponse c1 of
                          (c2, None) \<Rightarrow> c2
                        | (c2, Some e) \<Rightarrow> catch_error e c2))))"

text \<open>
  \<open>handleData\<close> appends the chunk's text to the buffer, keeps what follows the last line
  feed, and processes each line before it that is not blank. \<open>handleText\<close> is the
  function after \<open>data.toString()\<close>.
\<close>

definition process_lines :: "jsstring list \<Rightarrow> client \<Rightarrow> client" where
  "process_lines lines c = fold (\<lambda>line c. if trim line \<noteq> [] then processLine line c else c) lines c"

definition handleText :: "jsstring \<Rightarrow> client \<Rightarrow> client" where
  "handleText data c =
     (let lines = split_nl (buffer c @ data)
      in process_lines (butlast lines) (c\<lparr>buffer := last lines\<rparr>))"

definition handleData :: "byte list \<Rightarrow> client \<Rightarrow> client" where
  "handleData data c = handleText (toString data) c"

subsection \<open>Outgoing messages\<close>

text \<open>
  \<open>send\<close> writes the message's JSON text and a line feed to the server's \<open>stdin\<close>, as
  UTF-8, when there is a server. The result is \<open>None\<close> where the model has no rendering
  for a number of the message.
\<close>

definition send :: "json \<Rightarrow> client \<Rightarrow> client option" where
  "send msg c =
     (case stdin c of
        None \<Rightarrow> Some c
      | Some written \<Rightarrow>
          (case JSON_stringify msg of
             None \<Rightarrow> None
           | Some s \<Rightarrow> Some (c\<lparr>stdin := Some (written @ [utf8_encode (s @ [0x0A])])\<rparr>)))"

text \<open>The messages of \<open>createMessage\<close>.\<close>

definition createMessage_initialized :: json where
  "createMessage_initialized =
     JObj [(js ''jsonrpc'', JStr (js ''2.0'')), (js ''method'', JStr (js ''notifications/initialized''))]"

definition createMessage_toolsList :: json where
  "createMessage_toolsList =
     JObj [(js ''jsonrpc'', JStr (js ''2.0'')), (js ''id'', JNum 2), (js ''method'', JStr (js ''tools/list''))]"

definition createMessage_toolCall :: "jsstring \<Rightarrow> json \<Rightarrow> json \<Rightarrow> json" where
  "createMessage_toolCall name args rid =
     JObj [(js ''jsonrpc'', JStr (js ''2.0'')), (js ''id'', rid), (js ''method'', JStr (js ''tools/call'')),
           (js ''params'', JObj [(js ''name'', JStr name), (js ''arguments'', args)])]"

subsection \<open>Runs\<close>




section \<open>Displaying a requirement (demo_requirements.ts)\<close>








section \<open>Properties of the OAuth demo server\<close>

lemma hasScope_update:
  "hasScope (snd (updateClientScopes S st)) s = (s \<in> set S)"
  by (simp add: updateClientScopes_def hasScope_def Let_def)

lemma deleteUser_state: "snd (deleteUser u st) = st"
  by (simp add: deleteUser_def)

lemma js_inject: "(js a = js b) = (a = b)"
  by (simp add: js_def inj_map_eq_map inj_on_def)

text \<open>
  C4. Without the scope \<open>admin:users:delete\<close> the \<open>deleteUser\<close> tool answers with an
  \<open>isError\<close> result (access denied) and leaves the state, so the scope set, as it was;
  once \<open>_updateClientScopes\<close> has set a scope list containing \<open>admin:users:delete\<close>, the
  same call answers with a success result that carries no \<open>isError\<close>.
\<close>

theorem deleteUser_scope_gate:
  assumes "\<not> hasScope st (js ''admin:users:delete'')"
    and "js ''admin:users:delete'' \<in> set S"
  shows "isError (fst (deleteUser u st)) = Some True
       \<and> content (fst (deleteUser u st)) =
           [TextContent (0x274C # js '' Access denied: Missing required scope 'admin:users:delete'' @ [39])]
       \<and> snd (deleteUser u st) = st
       \<and> isError (fst (deleteUser u (snd (updateClientScopes S (snd (deleteUser u st)))))) = None
       \<and> content (fst (deleteUser u (snd (updateClientScopes S (snd (deleteUser u st)))))) =
           [TextContent (0x2705 # js '' User '' @ u @ js '' has been deleted successfully'')]"
proof -
  have denied: "fst (deleteUser u st) =
      \<lparr>content = [TextContent (0x274C # js '' Access denied: Missing required scope 'admin:users:delete'' @ [39])],
       isError = Some True\<rparr>"
    using assms(1) by (simp add: deleteUser_def)
  have granted: "hasScope (snd (updateClientScopes S st)) (js ''admin:users:delete'')"
    using assms(2) by (simp only: hasScope_update)
  have allowed: "fst (deleteUser u (snd (updateClientScopes S st))) =
      \<lparr>content = [TextContent (0x2705 # js '' User '' @ u @ js '' has been deleted successfully'')],
       isError = None\<rparr>"
    using granted by (simp add: deleteUser_def)
  show ?thesis
    by (simp add: deleteUser_state denied allowed)
qed

text \<open>
  The demo's run: the server starts with the scope \<open>user:read\<close>, the client calls
  \<open>deleteUser\<close> for \<open>user123\<close>, is refused, sets the scopes \<open>user:read\<close> and
  \<open>admin:users:delete\<close>, and calls again.
\<close>

theorem deleteUser_scope_gate_witness:
  "\<not> hasScope (server_main initial_server) (js ''admin:users:delete'')
   \<and> js ''admin:users:delete'' \<in> set [js ''user:read'', js ''admin:users:delete'']
   \<and> isError (fst (deleteUser (js ''user123'') (server_main initial_server))) = Some True
   \<and> isError (fst (deleteUser (js ''user123'')
         (snd (updateClientScopes [js ''user:read'', js ''admin:users:delete'']
            (snd (deleteUser (js ''user123'') (server_main initial_server))))))) = None"
proof -
  have h1: "\<not> hasScope (server_main initial_server) (js ''admin:users:delete'')"
    by (simp add: hasScope_def server_main_def initial_server_def js_inject)
  have h2: "js ''admin:users:delete'' \<in> set [js ''user:read'', js ''admin:users:delete'']"
    by simp
  show ?thesis
    using h1 h2 deleteUser_scope_gate [OF h1 h2, of "js ''user123''"]
    by (simp add: deleteUser_state)
qed

text \<open>
  C10. The \<open>_updateClientScopes\<close> tool is registered without a \<open>requires\<close> field and its
  callback checks nothing: for every scope list \<open>S\<close> and every state the call succeeds
  (no \<open>isError\<close>), and afterwards \<open>hasScope s\<close> holds exactly for the members of \<open>S\<close>. A
  scope held before and not listed in \<open>S\<close> is gone.
\<close>

theorem updateClientScopes_replaces:
  "tool_requires (js ''_updateClientScopes'') = Some None
   \<and> isError (fst (updateClientScopes S st)) = None
   \<and> content (fst (updateClientScopes S st)) =
       [TextContent (js ''OAuth scopes updated: '' @ join (js '', '') S)]
   \<and> currentScopes (snd (updateClientScopes S st)) = S
   \<and> (\<forall>s. hasScope (snd (updateClientScopes S st)) s = (s \<in> set S))
   \<and> (\<forall>s. hasScope st s \<and> s \<notin> set S \<longrightarrow> \<not> hasScope (snd (updateClientScopes S st)) s)"
proof -
  have "tool_requires (js ''_updateClientScopes'') = Some None"
    by (simp add: tool_requires_def registeredTools_def js_inject)
  moreover have "isError (fst (updateClientScopes S st)) = None"
    and "content (fst (updateClientScopes S st)) =
       [TextContent (js ''OAuth scopes updated: '' @ join (js '', '') S)]"
    and "currentScopes (snd (updateClientScopes S st)) = S"
    by (simp_all add: updateClientScopes_def Let_def)
  ultimately show ?thesis
    by (simp add: hasScope_update)
qed

theorem updateClientScopes_replaces_witness:
  "hasScope (server_main initial_server) (js ''user:read'')
   \<and> js ''user:read'' \<notin> set [js ''admin:users:delete'']
   \<and> \<not> hasScope (snd (updateClientScopes [js ''admin:users:delete''] (server_main initial_server)))
         (js ''user:read'')
   \<and> hasScope (snd (updateClientScopes [js ''admin:users:delete''] (server_main initial_server)))
         (js ''admin:users:delete'')"
proof -
  have h1: "hasScope (server_main initial_server) (js ''user:read'')"
    by (simp add: hasScope_def server_main_def initial_server_def)
  have h2: "js ''user:read'' \<notin> set [js ''admin:users:delete'']"
    by (simp add: js_inject)
  show ?thesis
    using h1 h2 updateClientScopes_replaces [of "[js ''admin:users:delete'']" "server_main initial_server"]
    by simp
qed

text \<open>
  C7. The \<open>transferFunds\<close> tool declares the requirement \<open>allOf\<close> of the scopes
  \<open>accounts:read\<close> and \<open>accounts:write\<close>. Its call succeeds iff both scopes are held,
  which is the verdict of the specification's evaluator on the declared requirement; when
  it fails, the message lists exactly the scopes among the two that are not held, in
  their order, which are the unmet leaves the evaluator collects over all children. The
  state stays as it was.
\<close>

theorem transferFunds_allOf:
  "tool_requires (js ''transferFunds'') =
     Some (Some [AllOf [Permission (PScope (js ''accounts:read'')),
                        Permission (PScope (js ''accounts:write''))]])
   \<and> (isError (fst (transferFunds f t a st)) = None) =
       (hasScope st (js ''accounts:read'') \<and> hasScope st (js ''accounts:write''))
   \<and> (isError (fst (transferFunds f t a st)) = Some True) =
       (\<not> (hasScope st (js ''accounts:read'') \<and> hasScope st (js ''accounts:write'')))
   \<and> (isError (fst (transferFunds f t a st)) = None) =
       fst (spec_evaluate (server_context st)
             (AllOf [Permission (PScope (js ''accounts:read'')),
                     Permission (PScope (js ''accounts:write''))]))
   \<and> snd (spec_evaluate (server_context st)
             (AllOf [Permission (PScope (js ''accounts:read'')),
                     Permission (PScope (js ''accounts:write''))])) =
       map (\<lambda>s. Permission (PScope s))
         (filter (\<lambda>s. \<not> hasScope st s) [js ''accounts:read'', js ''accounts:write''])
   \<and> (isError (fst (transferFunds f t a st)) = Some True \<longrightarrow>
        content (fst (transferFunds f t a st)) =
          [TextContent (0x274C # js '' Access denied: Missing required scopes: '' @
             join (js '', '')
               (filter (\<lambda>s. \<not> hasScope st s) [js ''accounts:read'', js ''accounts:write'']))])
   \<and> snd (transferFunds f t a st) = st"
proof -
  have "tool_requires (js ''transferFunds'') =
     Some (Some [AllOf [Permission (PScope (js ''accounts:read'')),
                        Permission (PScope (js ''accounts:write''))]])"
    by (simp add: tool_requires_def registeredTools_def js_inject)
  moreover have "fst (spec_evaluate (server_context st)
             (AllOf [Permission (PScope (js ''accounts:read'')),
                     Permission (PScope (js ''accounts:write''))])) =
       (hasScope st (js ''accounts:read'') \<and> hasScope st (js ''accounts:write''))"
    by (simp add: server_context_def hasScope_def)
  moreover have "snd (spec_evaluate (server_context st)
             (AllOf [Permission (PScope (js ''accounts:read'')),
                     Permission (PScope (js ''accounts:write''))])) =
       map (\<lambda>s. Permission (PScope s))
         (filter (\<lambda>s. \<not> hasScope st s) [js ''accounts:read'', js ''accounts:write''])"
    by (simp add: server_context_def hasScope_def)
  moreover have "(isError (fst (transferFunds f t a st)) = None) =
       (hasScope st (js ''accounts:read'') \<and> hasScope st (js ''accounts:write''))"
    and "(isError (fst (transferFunds f t a st)) = Some True) =
       (\<not> (hasScope st (js ''accounts:read'') \<and> hasScope st (js ''accounts:write'')))"
    and "snd (transferFunds f t a st) = st"
    by (auto simp add: transferFunds_def Let_def)
  moreover have "isError (fst (transferFunds f t a st)) = Some True \<longrightarrow>
        content (fst (transferFunds f t a st)) =
          [TextContent (0x274C # js '' Access denied: Missing required scopes: '' @
             join (js '', '')
               (filter (\<lambda>s. \<not> hasScope st s) [js ''accounts:read'', js ''accounts:write'']))]"
    by (simp add: transferFunds_def Let_def)
  ultimately show ?thesis
    by (simp only: simp_thms)
qed

text \<open>
  With the scope \<open>accounts:read\<close> alone the call fails and the message names
  \<open>accounts:write\<close> only.
\<close>

theorem transferFunds_allOf_witness:
  "isError (fst (transferFunds (js ''A'') (js ''B'') 5
      \<lparr>currentScopes = [js ''accounts:read''], console = []\<rparr>)) = Some True
   \<and> content (fst (transferFunds (js ''A'') (js ''B'') 5
      \<lparr>currentScopes = [js ''accounts:read''], console = []\<rparr>)) =
       [TextContent (0x274C # js '' Access denied: Missing required scopes: '' @ js ''accounts:write'')]"
proof -
  have h: "isError (fst (transferFunds (js ''A'') (js ''B'') 5
      \<lparr>currentScopes = [js ''accounts:read''], console = []\<rparr>)) = Some True"
    by (simp add: transferFunds_def hasScope_def js_inject)
  show ?thesis
    using h transferFunds_allOf [of "js ''A''" "js ''B''" 5
        "\<lparr>currentScopes = [js ''accounts:read''], console = []\<rparr>"]
    by (simp add: hasScope_def js_inject)
qed

section \<open>Properties of \<open>display.requirement\<close>\<close>











subsection \<open>The call stack\<close>




section \<open>Properties of the \<open>ServerHandler\<close>\<close>

subsection \<open>Lines and chunks\<close>

lemma split_nl_nonempty: "split_nl s \<noteq> []"
  by (induction s) (auto split: list.splits)

lemma split_nl_append:
  "split_nl (a @ b) = butlast (split_nl a) @ split_nl (last (split_nl a) @ b)"
proof (induction a)
  case Nil
  then show ?case by simp
next
  case (Cons c a)
  obtain l ls where sa: "split_nl a = l # ls"
    using split_nl_nonempty [of a] by (cases "split_nl a") auto
  show ?case
  proof (cases "c = 0x0A")
    case True
    then show ?thesis using Cons sa by simp
  next
    case False
    show ?thesis
    proof (cases ls)
      case Nil
      then show ?thesis using Cons sa False by simp
    next
      case (Cons l' ls')
      then show ?thesis using Cons.IH sa False by simp
    qed
  qed
qed

lemma split_nl_no_nl: "0x0A \<notin> set s \<Longrightarrow> split_nl s = [s]"
  by (induction s) auto

lemma split_nl_line: "0x0A \<notin> set l \<Longrightarrow> split_nl (l @ 0x0A # r) = l # split_nl r"
  by (induction l) auto

lemma split_nl_lines:
  "\<forall>l \<in> set ls. 0x0A \<notin> set l \<Longrightarrow>
   split_nl (concat (map (\<lambda>l. l @ [0x0A]) ls) @ r) = ls @ split_nl r"
  by (induction ls) (auto simp: split_nl_line)

lemma last_split_nl_no_nl: "0x0A \<notin> set (last (split_nl s))"
  by (induction s) (auto simp: split_nl_nonempty split: list.splits)

lemma butlast_split_nl_no_nl: "l \<in> set (butlast (split_nl s)) \<Longrightarrow> 0x0A \<notin> set l"
  by (induction s arbitrary: l) (auto simp: split_nl_nonempty split: list.splits if_splits)


subsection \<open>What the steps leave alone\<close>

lemma resolve_frame [simp]:
  "handlers (resolve n v c) = handlers c" "buffer (resolve n v c) = buffer c"
  "out (resolve n v c) = out c" "calls (resolve n v c) = calls c" "stdin (resolve n v c) = stdin c"
  "length (waits (resolve n v c)) = length (waits c)"
  by (simp_all add: resolve_def)

lemma reject_frame [simp]:
  "handlers (reject n c) = handlers c" "buffer (reject n c) = buffer c"
  "out (reject n c) = out c" "calls (reject n c) = calls c" "stdin (reject n c) = stdin c"
  "length (waits (reject n c)) = length (waits c)"
  by (simp_all add: reject_def)

lemma clearTimeout_frame [simp]:
  "handlers (clearTimeout n c) = handlers c" "buffer (clearTimeout n c) = buffer c"
  "out (clearTimeout n c) = out c" "calls (clearTimeout n c) = calls c" "stdin (clearTimeout n c) = stdin c"
  "length (waits (clearTimeout n c)) = length (waits c)"
  by (simp_all add: clearTimeout_def)

lemma timer_fires_frame [simp]:
  "handlers (timer_fires n c) = handlers c" "buffer (timer_fires n c) = buffer c"
  "out (timer_fires n c) = out c" "calls (timer_fires n c) = calls c" "stdin (timer_fires n c) = stdin c"
  "length (waits (timer_fires n c)) = length (waits c)"
  by (simp_all add: timer_fires_def)

lemma catch_error_frame [simp]:
  "handlers (catch_error e c) = handlers c" "buffer (catch_error e c) = buffer c"
  "waits (catch_error e c) = waits c" "calls (catch_error e c) = calls c" "stdin (catch_error e c) = stdin c"
  by (simp_all add: catch_error_def split: js_error.splits)

lemma invoke_frame [simp]:
  "handlers (fst (invoke h v c)) = handlers c" "buffer (fst (invoke h v c)) = buffer c"
  "out (fst (invoke h v c)) = out c" "calls (fst (invoke h v c)) = calls c @ [(h, v)]"
  "stdin (fst (invoke h v c)) = stdin c"
  "length (waits (fst (invoke h v c))) = length (waits c)"
  by (simp_all add: invoke_def Let_def split: handler.splits)

lemma processLine_frame [simp]:
  "handlers (processLine l c) = handlers c" "buffer (processLine l c) = buffer c"
  "stdin (processLine l c) = stdin c" "length (waits (processLine l c)) = length (waits c)"
  by (simp_all add: processLine_def Let_def case_prod_beta split: option.splits sum.splits)

lemma process_lines_frame [simp]:
  "handlers (process_lines ls c) = handlers c" "buffer (process_lines ls c) = buffer c"
  "stdin (process_lines ls c) = stdin c" "length (waits (process_lines ls c)) = length (waits c)"
  by (induction ls arbitrary: c) (simp_all add: process_lines_def)

lemma process_lines_append:
  "process_lines (xs @ ys) c = process_lines ys (process_lines xs c)"
  by (simp add: process_lines_def)

lemma handleText_frame [simp]:
  "handlers (handleText d c) = handlers c" "stdin (handleText d c) = stdin c"
  "length (waits (handleText d c)) = length (waits c)"
  "buffer (handleText d c) = last (split_nl (buffer c @ d))"
  by (simp_all add: handleText_def Let_def)

subsection \<open>The buffer does not matter to a line\<close>

lemma processLine_buffer: "processLine l (c\<lparr>buffer := b\<rparr>) = (processLine l c)\<lparr>buffer := b\<rparr>"
  by (simp add: processLine_def Let_def handlers_get_def invoke_def catch_error_def resolve_def
      clearTimeout_def case_prod_beta split: option.splits sum.splits handler.splits js_error.splits)

lemma process_lines_buffer: "process_lines ls (c\<lparr>buffer := b\<rparr>) = (process_lines ls c)\<lparr>buffer := b\<rparr>"
  by (induction ls arbitrary: c) (simp_all add: process_lines_def processLine_buffer)

lemma handleText_append: "handleText b (handleText a c) = handleText (a @ b) c"
proof -
  have "handleText b (handleText a c) =
      process_lines (butlast (split_nl (last (split_nl (buffer c @ a)) @ b)))
        ((process_lines (butlast (split_nl (buffer c @ a))) (c\<lparr>buffer := last (split_nl (buffer c @ a))\<rparr>))
           \<lparr>buffer := last (split_nl (last (split_nl (buffer c @ a)) @ b))\<rparr>)"
    by (simp add: handleText_def Let_def)
  also have "\<dots> = process_lines (butlast (split_nl (last (split_nl (buffer c @ a)) @ b)))
        (process_lines (butlast (split_nl (buffer c @ a)))
           (c\<lparr>buffer := last (split_nl (last (split_nl (buffer c @ a)) @ b))\<rparr>))"
    by (simp add: process_lines_buffer [symmetric])
  also have "\<dots> = process_lines (butlast (split_nl (buffer c @ a)) @ butlast (split_nl (last (split_nl (buffer c @ a)) @ b)))
           (c\<lparr>buffer := last (split_nl (last (split_nl (buffer c @ a)) @ b))\<rparr>)"
    by (simp add: process_lines_append)
  also have "\<dots> = handleText (a @ b) c"
    using split_nl_append [of "buffer c @ a" b] split_nl_nonempty [of "last (split_nl (buffer c @ a)) @ b"]
    by (simp add: handleText_def Let_def butlast_append)
  finally show ?thesis .
qed

lemma handleText_empty: "0x0A \<notin> set (buffer c) \<Longrightarrow> handleText [] c = c"
  by (simp add: handleText_def split_nl_no_nl process_lines_def)

lemma buffer_handleText_no_nl: "0x0A \<notin> set (buffer (handleText d c))"
  by (simp add: last_split_nl_no_nl)

lemma fold_handleText:
  "0x0A \<notin> set (buffer c) \<Longrightarrow> fold handleText chunks c = handleText (concat chunks) c"
proof (induction chunks arbitrary: c)
  case Nil
  then show ?case by (simp add: handleText_empty)
next
  case (Cons d ds)
  have "fold handleText (d # ds) c = handleText (concat ds) (handleText d c)"
    using Cons.IH [of "handleText d c"] by (simp add: last_split_nl_no_nl)
  then show ?case by (simp add: handleText_append)
qed

lemma handleText_lines:
  assumes "buffer c = []" and "\<forall>l \<in> set ls. 0x0A \<notin> set l"
  shows "handleText (concat (map (\<lambda>l. l @ [0x0A]) ls)) c = process_lines ls c"
proof -
  have "split_nl (concat (map (\<lambda>l. l @ [0x0A]) ls) @ []) = ls @ split_nl []"
    using assms(2) by (rule split_nl_lines)
  then have "handleText (concat (map (\<lambda>l. l @ [0x0A]) ls)) c = process_lines ls (c\<lparr>buffer := []\<rparr>)"
    using assms(1) by (simp add: handleText_def Let_def)
  then show ?thesis using assms(1) by (metis client.surjective client.update_convs(1))
qed


subsection \<open>Where a line goes\<close>

lemma validate_value [simp]: "fst (validate v) = v"
  by (simp add: validate_def)

lemma processLine_malformed: "JSON_parse l = None \<Longrightarrow> processLine l c = c"
  by (simp add: processLine_def catch_error_def)

lemma processLine_routed:
  assumes "JSON_parse l = Some v" and "route_value v = Inr kv" and "as_key kv = Some k"
    and "handlers c k = Some h"
  shows "processLine l c =
     (case snd (invoke h v (c\<lparr>out := out c @ snd (validate v)\<rparr>)) of
        None \<Rightarrow> fst (invoke h v (c\<lparr>out := out c @ snd (validate v)\<rparr>))
      | Some e \<Rightarrow> catch_error e (fst (invoke h v (c\<lparr>out := out c @ snd (validate v)\<rparr>))))"
  using assms by (simp add: processLine_def Let_def handlers_get_def case_prod_beta split: option.splits)

lemma processLine_dropped:
  assumes "JSON_parse l = Some v" and "route_value v = Inr kv"
    and "as_key kv = None \<or> (\<exists>k. as_key kv = Some k \<and> handlers c k = None)"
  shows "processLine l c = c\<lparr>out := out c @ snd (validate v)\<rparr>"
  using assms by (auto simp add: processLine_def Let_def handlers_get_def)

lemma processLine_calls_routed:
  assumes "JSON_parse l = Some v" and "route_value v = Inr kv" and "as_key kv = Some k"
    and "handlers c k = Some h"
  shows "calls (processLine l c) = calls c @ [(h, v)]"
  by (simp add: processLine_routed [OF assms] split: option.splits)

lemma processLine_waits_routed:
  assumes "JSON_parse l = Some v" and "route_value v = Inr kv" and "as_key kv = Some k"
    and "handlers c k = Some (Waiter n)"
  shows "waits (processLine l c) = waits (resolve n v (clearTimeout n c))"
  by (simp add: processLine_routed [OF assms] invoke_def Let_def resolve_def clearTimeout_def)

subsection \<open>A settled promise stays as it is\<close>


lemma settled_reject:
  "outcome (waits c ! n) \<noteq> Pending \<Longrightarrow> outcome (waits (reject m c) ! n) = outcome (waits c ! n)"
  by (auto simp: reject_def nth_list_update)

lemma outcome_clearTimeout [simp]:
  "outcome (waits (clearTimeout m c) ! n) = outcome (waits c ! n)"
  by (auto simp: clearTimeout_def nth_list_update)






lemma settled_waitForResponse:
  "n < length (waits c) \<Longrightarrow>
   outcome (waits (snd (waitForResponse k t c)) ! n) = outcome (waits c ! n)"
  by (simp add: waitForResponse_def Let_def onResponse_def nth_append)



subsection \<open>Completion and timeout\<close>

lemmas json_eval = JSON_parse_def next_token_def is_json_space_def is_digit_def js_def lex_number_def
  bump_def digits_val_def unescape_def hex_val_def
lemmas utf8_eval = toString_def utf8_encode_def utf8_bytes_def utf8_step_def utf8_lead_def utf8_initial_def
lemmas route_eval = validate_def is_JSONRPCResponse_def is_JSONRPCError_def is_RequestId_def
  json_member_def route_value_def read_property_def as_key_def handlers_get_def
lemmas client_eval = handleData_def handleText_def process_lines_def processLine_def trim_def is_js_space_def
  catch_error_def invoke_def resolve_def reject_def clearTimeout_def timer_fires_def onResponse_def
  waitForResponse_def new_ServerHandler_def


lemma timer_fires_pending:
  assumes "n < length (waits c)" and "outcome (waits c ! n) = Pending" and "timer (waits c ! n) = Armed"
  shows "outcome (waits (timer_fires n c) ! n) = RejectedTimeout (wkey (waits c ! n))"
    and "timer (waits (timer_fires n c) ! n) = Fired"
  using assms by (simp_all add: timer_fires_def reject_def)


lemma resolve_settled_id: "outcome (waits c ! n) \<noteq> Pending \<Longrightarrow> resolve n v c = c"
  by (simp add: resolve_def)

lemma clearTimeout_not_armed: "timer (waits c ! n) \<noteq> Armed \<Longrightarrow> clearTimeout n c = c"
  by (simp add: clearTimeout_def)





subsection \<open>Registering twice\<close>

text \<open>
  C2, as the code has it. \<open>onResponse\<close> stores the handler under the key whatever the
  map holds there, and \<open>waitForResponse\<close> registers through it: neither can fail, and
  there is no \<open>DuplicateKey\<close> error. A second wait for a key whose first wait is still
  pending takes the key over. Both promises are pending; a response for the key then
  resolves the second and leaves the first pending.
\<close>

theorem second_registration_replaces:
  "handlers (onResponse k h2 (onResponse k h1 c)) = (handlers c)(k \<mapsto> h2)
   \<and> fst (waitForResponse k t1 c) = length (waits c)
   \<and> fst (waitForResponse k t2 (snd (waitForResponse k t1 c))) = Suc (length (waits c))
   \<and> handlers (snd (waitForResponse k t1 c)) k = Some (Waiter (length (waits c)))
   \<and> handlers (snd (waitForResponse k t2 (snd (waitForResponse k t1 c)))) k = Some (Waiter (Suc (length (waits c))))
   \<and> outcome (waits (snd (waitForResponse k t2 (snd (waitForResponse k t1 c)))) ! length (waits c)) = Pending
   \<and> outcome (waits (snd (waitForResponse k t2 (snd (waitForResponse k t1 c)))) ! Suc (length (waits c))) = Pending
   \<and> (JSON_parse line = Some v \<and> route_value v = Inr kv \<and> as_key kv = Some k \<longrightarrow>
        outcome (waits (processLine line (snd (waitForResponse k t2 (snd (waitForResponse k t1 c)))))
                  ! Suc (length (waits c))) = Resolved v
        \<and> outcome (waits (processLine line (snd (waitForResponse k t2 (snd (waitForResponse k t1 c)))))
                  ! length (waits c)) = Pending)"
proof -
  let ?c1 = "snd (waitForResponse k t1 c)"
  let ?c2 = "snd (waitForResponse k t2 ?c1)"
  let ?n = "length (waits c)"
  have a: "handlers (onResponse k h2 (onResponse k h1 c)) = (handlers c)(k \<mapsto> h2)"
    by (simp add: onResponse_def)
  have b: "fst (waitForResponse k t1 c) = ?n" "fst (waitForResponse k t2 ?c1) = Suc ?n"
    "handlers ?c1 k = Some (Waiter ?n)" "handlers ?c2 k = Some (Waiter (Suc ?n))"
    "outcome (waits ?c2 ! ?n) = Pending" "outcome (waits ?c2 ! Suc ?n) = Pending"
    "waits ?c2 = waits c @ [\<lparr>wkey = k, delay = t1, outcome = Pending, timer = Armed\<rparr>,
                            \<lparr>wkey = k, delay = t2, outcome = Pending, timer = Armed\<rparr>]"
    by (simp_all add: waitForResponse_def onResponse_def Let_def nth_append)
  have c: "outcome (waits (processLine line ?c2) ! Suc ?n) = Resolved v
        \<and> outcome (waits (processLine line ?c2) ! ?n) = Pending"
    if "JSON_parse line = Some v" "route_value v = Inr kv" "as_key kv = Some k"
  proof -
    have "waits (processLine line ?c2) = waits (resolve (Suc ?n) v (clearTimeout (Suc ?n) ?c2))"
      using that b(4) by (rule processLine_waits_routed)
    then show ?thesis
      by (simp add: b(7) resolve_def clearTimeout_def nth_append)
  qed
  show ?thesis
    using a b(1-6) c by blast
qed

lemma response_3:
  \<open>JSON_parse (js ''{"jsonrpc":"2.0","id":3,"result":{}}'') =
    Some (JObj [(js ''jsonrpc'', JStr (js ''2.0'')), (js ''id'', JNum 3), (js ''result'', JObj [])])\<close>
  by (simp add: json_eval)

lemma route_response_3:
  \<open>route_value (JObj [(js ''jsonrpc'', JStr (js ''2.0'')), (js ''id'', JNum 3), (js ''result'', JObj [])])
     = Inr (JNum 3)\<close>
  by (simp add: route_eval js_def)

lemma as_key_3: "as_key (JNum 3) = Some (KNum 3)"
  by (simp add: as_key_def)

theorem second_registration_replaces_witness:
  \<open>JSON_parse (js ''{"jsonrpc":"2.0","id":3,"result":{}}'') =
      Some (JObj [(js ''jsonrpc'', JStr (js ''2.0'')), (js ''id'', JNum 3), (js ''result'', JObj [])])
   \<and> route_value (JObj [(js ''jsonrpc'', JStr (js ''2.0'')), (js ''id'', JNum 3), (js ''result'', JObj [])])
      = Inr (JNum 3)
   \<and> as_key (JNum 3) = Some (KNum 3)
   \<and> outcome (waits (processLine (js ''{"jsonrpc":"2.0","id":3,"result":{}}'')
         (snd (waitForResponse (KNum 3) 3000 (snd (waitForResponse (KNum 3) DEMO_TIMEOUT new_ServerHandler))))) ! 1)
      = Resolved (JObj [(js ''jsonrpc'', JStr (js ''2.0'')), (js ''id'', JNum 3), (js ''result'', JObj [])])
   \<and> outcome (waits (processLine (js ''{"jsonrpc":"2.0","id":3,"result":{}}'')
         (snd (waitForResponse (KNum 3) 3000 (snd (waitForResponse (KNum 3) DEMO_TIMEOUT new_ServerHandler))))) ! 0)
      = Pending\<close>
  using second_registration_replaces [of "KNum 3" _ _ new_ServerHandler DEMO_TIMEOUT 3000
      \<open>js ''{"jsonrpc":"2.0","id":3,"result":{}}''\<close>
      "JObj [(js ''jsonrpc'', JStr (js ''2.0'')), (js ''id'', JNum 3), (js ''result'', JObj [])]" "JNum 3"]
    response_3 route_response_3 as_key_3
  by (simp add: new_ServerHandler_def)

text \<open>
  The second registration for the id 3, or for a method name, while the first is
  registered and pending: it goes through, and the map holds the second waiter.
\<close>

theorem second_registration_counterexample:
  "handlers (snd (waitForResponse (KNum 3) DEMO_TIMEOUT new_ServerHandler)) (KNum 3) = Some (Waiter 0)
   \<and> outcome (waits (snd (waitForResponse (KNum 3) DEMO_TIMEOUT new_ServerHandler)) ! 0) = Pending
   \<and> handlers (snd (waitForResponse (KNum 3) 3000 (snd (waitForResponse (KNum 3) DEMO_TIMEOUT new_ServerHandler))))
        (KNum 3) = Some (Waiter 1)
   \<and> handlers (onResponse (KStr (js ''sampling/createMessage'')) (Callback 1 (\<lambda>v. None))
        (onResponse (KStr (js ''sampling/createMessage'')) (Callback 0 (\<lambda>v. None)) new_ServerHandler))
        (KStr (js ''sampling/createMessage'')) = Some (Callback 1 (\<lambda>v. None))"
  by (simp add: waitForResponse_def onResponse_def new_ServerHandler_def Let_def)

subsection \<open>After a timeout\<close>

text \<open>
  C3, as the code has it. When the deadline of a pending wait elapses, the promise is
  rejected with the timeout error for its key. Nothing removes the closure from the
  map: it stays registered under the key. A response for the key that arrives later is
  handed to that closure; its \<open>clearTimeout\<close> and \<open>resolve\<close> change nothing, so the promise
  stays rejected and the promises and timers are as they were.
\<close>

theorem timeout_keeps_waiter:
  assumes "n < length (waits c)" and "outcome (waits c ! n) = Pending" and "timer (waits c ! n) = Armed"
    and "wkey (waits c ! n) = k" and "handlers c k = Some (Waiter n)"
    and "JSON_parse line = Some v" and "route_value v = Inr kv" and "as_key kv = Some k"
  shows "outcome (waits (timer_fires n c) ! n) = RejectedTimeout k
       \<and> handlers (timer_fires n c) k = Some (Waiter n)
       \<and> calls (processLine line (timer_fires n c)) = calls (timer_fires n c) @ [(Waiter n, v)]
       \<and> waits (processLine line (timer_fires n c)) = waits (timer_fires n c)
       \<and> handlers (processLine line (timer_fires n c)) k = Some (Waiter n)"
proof -
  have rejected: "outcome (waits (timer_fires n c) ! n) = RejectedTimeout k"
    and fired: "timer (waits (timer_fires n c) ! n) = Fired"
    using timer_fires_pending [OF assms(1,2,3)] assms(4) by simp_all
  have kept: "handlers (timer_fires n c) k = Some (Waiter n)"
    using assms(5) by simp
  have called: "calls (processLine line (timer_fires n c)) = calls (timer_fires n c) @ [(Waiter n, v)]"
    using assms(6,7,8) kept by (rule processLine_calls_routed)
  have "waits (processLine line (timer_fires n c)) =
      waits (resolve n v (clearTimeout n (timer_fires n c)))"
    using assms(6,7,8) kept by (rule processLine_waits_routed)
  then have idle: "waits (processLine line (timer_fires n c)) = waits (timer_fires n c)"
    using rejected fired by (simp add: clearTimeout_not_armed resolve_settled_id)
  show ?thesis
    using rejected kept called idle by simp
qed

theorem timeout_keeps_waiter_witness:
  \<open>outcome (waits (timer_fires 0 (snd (waitForResponse (KNum 3) 3000 new_ServerHandler))) ! 0)
      = RejectedTimeout (KNum 3)
   \<and> calls (processLine (js ''{"jsonrpc":"2.0","id":3,"result":{}}'')
        (timer_fires 0 (snd (waitForResponse (KNum 3) 3000 new_ServerHandler))))
      = calls (timer_fires 0 (snd (waitForResponse (KNum 3) 3000 new_ServerHandler)))
        @ [(Waiter 0, JObj [(js ''jsonrpc'', JStr (js ''2.0'')), (js ''id'', JNum 3), (js ''result'', JObj [])])]\<close>
proof -
  let ?c = "snd (waitForResponse (KNum 3) 3000 new_ServerHandler)"
  have h: "0 < length (waits ?c)" "outcome (waits ?c ! 0) = Pending" "timer (waits ?c ! 0) = Armed"
    "wkey (waits ?c ! 0) = KNum 3" "handlers ?c (KNum 3) = Some (Waiter 0)"
    by (simp_all add: waitForResponse_def onResponse_def new_ServerHandler_def Let_def)
  show ?thesis
    using timeout_keeps_waiter [OF h response_3 route_response_3 as_key_3] by simp
qed

text \<open>
  A wait for the id 3 times out; the closure is still in the map, and the late response
  is handed to it.
\<close>

theorem timeout_unregisters_counterexample:
  \<open>outcome (waits (timer_fires 0 (snd (waitForResponse (KNum 3) 3000 new_ServerHandler))) ! 0)
      = RejectedTimeout (KNum 3)
   \<and> handlers (timer_fires 0 (snd (waitForResponse (KNum 3) 3000 new_ServerHandler))) (KNum 3)
      = Some (Waiter 0)
   \<and> calls (processLine (js ''{"jsonrpc":"2.0","id":3,"result":{}}'')
        (timer_fires 0 (snd (waitForResponse (KNum 3) 3000 new_ServerHandler))))
      = [(Waiter 0, JObj [(js ''jsonrpc'', JStr (js ''2.0'')), (js ''id'', JNum 3), (js ''result'', JObj [])])]\<close>
  by (simp add: json_eval route_eval client_eval Let_def)

section \<open>Frames in chunks\<close>

lemma process_lines_skip:
  "JSON_parse bad = None \<or> trim bad = [] \<Longrightarrow> process_lines [bad] c = c"
  by (auto simp: process_lines_def processLine_malformed)

lemma fold_handleData: "fold handleData chunks c = fold handleText (map toString chunks) c"
  by (induction chunks arbitrary: c) (simp_all add: handleData_def)

lemma lines_survive_chunking:
  assumes "buffer c = []" and "\<forall>l \<in> set ls. 0x0A \<notin> set l"
    and "concat (map toString chunks) = concat (map (\<lambda>l. l @ [0x0A]) ls)"
  shows "fold handleData chunks c = process_lines ls c"
proof -
  have "fold handleData chunks c = handleText (concat (map toString chunks)) c"
    using assms(1) by (simp add: fold_handleData fold_handleText)
  also have "\<dots> = process_lines ls c"
    using assms(1,2) by (simp only: assms(3) handleText_lines)
  finally show ?thesis .
qed

subsection \<open>Chunks of ASCII\<close>

lemma utf8_decode_ascii:
  "\<forall>b \<in> set d. b < 0x80 \<Longrightarrow> utf8_decode utf8_initial d = map unat d"
proof (induction d)
  case Nil
  then show ?case by (simp add: utf8_initial_def)
next
  case (Cons b d)
  have "unat b < 0x80"
    using Cons.prems by (simp add: word_less_nat_alt)
  then have "utf8_step utf8_initial b = ([unat b], utf8_initial)"
    by (simp add: utf8_step_def utf8_lead_def utf8_initial_def)
  then show ?case
    using Cons by simp
qed

lemma toString_ascii: "\<forall>b \<in> set d. b < 0x80 \<Longrightarrow> toString d = map unat d"
proof -
  assume a: "\<forall>b \<in> set d. b < 0x80"
  have "\<forall>x \<in> set (map unat d). x < 0x10000"
    using a by (auto simp: word_less_nat_alt)
  then have "concat (map utf16_units (map unat d)) = map unat d"
    by (induction d) auto
  then show ?thesis
    using a by (simp add: toString_def utf8_decode_ascii)
qed

lemma utf16_decode_ascii: "\<forall>x \<in> set s. x < 0x80 \<Longrightarrow> utf16_decode s = s"
  by (induction s) auto

lemma utf8_encode_ascii: "\<forall>x \<in> set s. x < 0x80 \<Longrightarrow> utf8_encode s = map of_nat s"
proof -
  assume a: "\<forall>x \<in> set s. x < 0x80"
  then have "concat (map utf8_bytes s) = map of_nat s"
    by (induction s) (auto simp: utf8_bytes_def)
  then show ?thesis
    using a by (simp add: utf8_encode_def utf16_decode_ascii)
qed

lemma ascii_bytes_back:
  assumes "\<forall>x \<in> set s. x < 0x80"
  shows "map unat (map of_nat s :: byte list) = s" and "\<forall>b \<in> set (map of_nat s :: byte list). b < 0x80"
proof -
  have u: "unat (of_nat x :: byte) = x" if "x < 0x80" for x
    using that by (simp add: unat_of_nat)
  show "map unat (map of_nat s :: byte list) = s"
    using assms by (induction s) (auto simp: u)
  show "\<forall>b \<in> set (map of_nat s :: byte list). b < 0x80"
    using assms by (auto simp: word_less_nat_alt u)
qed

lemma ascii_lines_survive_any_split:
  assumes "buffer c = []" and "\<forall>l \<in> set ls. 0x0A \<notin> set l \<and> (\<forall>x \<in> set l. x < 0x80)"
    and "concat chunks = utf8_encode (concat (map (\<lambda>l. l @ [0x0A]) ls))"
  shows "fold handleData chunks c = process_lines ls c"
proof -
  let ?text = "concat (map (\<lambda>l. l @ [0x0A]) ls)"
  have ascii: "\<forall>x \<in> set ?text. x < 0x80"
    using assms(2) by auto
  have bytes: "concat chunks = map of_nat ?text"
    using ascii assms(3) by (simp only: utf8_encode_ascii)
  have small: "\<forall>b \<in> set (concat chunks). b < 0x80"
    using ascii_bytes_back(2) [OF ascii] by (simp only: bytes)
  have each: "\<forall>d \<in> set chunks. toString d = map unat d"
    using small by (auto intro!: toString_ascii)
  then have "concat (map toString chunks) = map unat (concat chunks)"
    by (induction chunks) auto
  also have "\<dots> = ?text"
    using ascii_bytes_back(1) [OF ascii] by (simp only: bytes)
  finally have "concat (map toString chunks) = ?text" .
  then show ?thesis
    using assms(1,2) by (intro lines_survive_chunking) auto
qed


subsection \<open>The text of a message has no line feed\<close>

lemma hex_digit_no_nl: "hex_digit n \<noteq> 0x0A"
  by (simp add: hex_digit_def)

lemma unicode_escape_no_nl: "0x0A \<notin> set (unicode_escape c)"
  using hex_digit_no_nl by (auto simp: unicode_escape_def)

lemma quote_unit_no_nl: "0x0A \<notin> set (quote_unit c)"
  by (simp add: quote_unit_def unicode_escape_no_nl)

lemma quote_body_no_nl: "0x0A \<notin> set (quote_body s)"
  by (induction s rule: quote_body.induct)
     (auto simp: unicode_escape_no_nl quote_unit_no_nl split: list.splits)

lemma quote_no_nl: "0x0A \<notin> set (quote s)"
  by (simp add: quote_def quote_body_no_nl)

lemma digits_no_nl: "0x0A \<notin> set (digits n)"
proof (induction n rule: digits.induct)
  case (1 n)
  then show ?case
    by (subst digits.simps) auto
qed

lemma show_number_no_nl: "show_number r = Some s \<Longrightarrow> 0x0A \<notin> set s"
  by (auto simp: show_number_def show_int_def digits_no_nl split: if_splits)

lemma join_no_nl:
  "0x0A \<notin> set sep \<Longrightarrow> \<forall>x \<in> set xs. 0x0A \<notin> set x \<Longrightarrow> 0x0A \<notin> set (join sep xs)"
  by (induction sep xs rule: join.induct) auto

lemma JSON_stringify_no_nl: "JSON_stringify v = Some s \<Longrightarrow> 0x0A \<notin> set s"
proof (induction v arbitrary: s)
  case JNull
  then show ?case by (auto simp: js_def)
next
  case (JBool b)
  then show ?case by (auto simp: js_def split: if_splits)
next
  case (JNum r)
  then show ?case by (simp add: show_number_no_nl)
next
  case (JStr t)
  then show ?case by (auto simp: quote_no_nl)
next
  case (JArr vs)
  have "\<forall>x \<in> set (map the (map JSON_stringify vs)). 0x0A \<notin> set x"
    if "None \<notin> set (map JSON_stringify vs)"
  proof
    fix x assume "x \<in> set (map the (map JSON_stringify vs))"
    then obtain w where w: "w \<in> set vs" and x: "x = the (JSON_stringify w)"
      by auto
    have "JSON_stringify w \<noteq> None"
      using that w by force
    then obtain t where t: "JSON_stringify w = Some t"
      by auto
    then show "0x0A \<notin> set x"
      using JArr.IH w x by simp
  qed
  then show ?case
    using JArr.prems by (auto simp: Let_def join_no_nl split: if_splits)
next
  case (JObj ms)
  let ?rs = "map (\<lambda>m. map_option (\<lambda>s. quote (fst m) @ [0x3A] @ s) (JSON_stringify (snd m))) ms"
  have "\<forall>x \<in> set (map the ?rs). 0x0A \<notin> set x" if "None \<notin> set ?rs"
  proof
    fix x assume "x \<in> set (map the ?rs)"
    then obtain m where m: "m \<in> set ms"
      and x: "x = the (map_option (\<lambda>s. quote (fst m) @ [0x3A] @ s) (JSON_stringify (snd m)))"
      by auto
    have "JSON_stringify (snd m) \<noteq> None"
      using that m by force
    then obtain t where t: "JSON_stringify (snd m) = Some t"
      by auto
    have "snd m \<in> Basic_BNFs.snds m"
      by (cases m) simp
    then have "0x0A \<notin> set t"
      using JObj.IH m t by blast
    then show "0x0A \<notin> set x"
      using x t by (simp add: quote_no_nl)
  qed
  then show ?case
    using JObj.prems by (auto simp: Let_def join_no_nl split: if_splits)
qed

lemma messages_survive_chunking:
  assumes "buffer c = []" and "\<forall>m \<in> set msgs. JSON_stringify m \<noteq> None"
    and "concat (map toString chunks) = concat (map (\<lambda>m. the (JSON_stringify m) @ [0x0A]) msgs)"
  shows "fold handleData chunks c = process_lines (map (\<lambda>m. the (JSON_stringify m)) msgs) c"
proof -
  have "\<forall>l \<in> set (map (\<lambda>m. the (JSON_stringify m)) msgs). 0x0A \<notin> set l"
    using assms(2) JSON_stringify_no_nl by fastforce
  moreover have "concat (map toString chunks) =
      concat (map (\<lambda>l. l @ [0x0A]) (map (\<lambda>m. the (JSON_stringify m)) msgs))"
    by (simp add: assms(3) comp_def)
  ultimately show ?thesis
    using assms(1) by (intro lines_survive_chunking)
qed

subsection \<open>A line that is not JSON\<close>

text \<open>
  C5, as the code has it. A line on which \<open>JSON.parse\<close> throws is confined to itself: the
  \<open>SyntaxError\<close> is caught and ignored, nothing is printed for it, and the state is as
  before. A blank line is not looked at. Whatever the chunks are, when the text they
  decode to is a sequence of lines, one of them malformed or blank, the handler ends in
  the state it reaches on the other lines alone, in their order, which is also the
  state it reaches on the stream without that line: the next line starts at the next
  line feed, every other frame is processed, and the handlers stay registered.
\<close>

theorem malformed_line_is_skipped:
  assumes "JSON_parse bad = None \<or> trim bad = []"
    and "0x0A \<notin> set bad" and "\<forall>l \<in> set (before @ after). 0x0A \<notin> set l"
    and "buffer c = []"
    and "concat (map toString chunks) = concat (map (\<lambda>l. l @ [0x0A]) (before @ [bad] @ after))"
  shows "(JSON_parse bad = None \<longrightarrow> processLine bad c = c)
       \<and> fold handleData chunks c = process_lines (before @ after) c
       \<and> fold handleData chunks c = handleText (concat (map (\<lambda>l. l @ [0x0A]) (before @ after))) c
       \<and> out (fold handleData chunks c) = out (process_lines (before @ after) c)
       \<and> handlers (fold handleData chunks c) = handlers c"
proof -
  have nl: "\<forall>l \<in> set (before @ [bad] @ after). 0x0A \<notin> set l"
    using assms(2,3) by auto
  have nl': "\<forall>l \<in> set (before @ after). 0x0A \<notin> set l"
    using assms(3) by auto
  have "fold handleData chunks c = process_lines (before @ [bad] @ after) c"
    using assms(4) nl assms(5) by (rule lines_survive_chunking)
  also have "\<dots> = process_lines after (process_lines [bad] (process_lines before c))"
    by (simp only: process_lines_append)
  also have "\<dots> = process_lines (before @ after) c"
    using assms(1) by (simp add: process_lines_skip process_lines_append)
  finally have main: "fold handleData chunks c = process_lines (before @ after) c" .
  have same: "handleText (concat (map (\<lambda>l. l @ [0x0A]) (before @ after))) c = process_lines (before @ after) c"
    using assms(4) nl' by (rule handleText_lines)
  show ?thesis
    using main same by (simp add: processLine_malformed)
qed

lemma response_2:
  \<open>JSON_parse (js ''{"jsonrpc":"2.0","id":2,"result":{}}'') =
    Some (JObj [(js ''jsonrpc'', JStr (js ''2.0'')), (js ''id'', JNum 2), (js ''result'', JObj [])])\<close>
  by (simp add: json_eval)

lemma malformed_oops: \<open>JSON_parse (js ''{oops'') = None\<close>
  by (simp add: json_eval)

theorem malformed_line_is_skipped_witness:
  \<open>JSON_parse (js ''{oops'') = None
   \<and> fold handleData
        [utf8_encode (js ''{"jsonrpc":"2.0","id":1,"result":{}}'' @ [0x0A] @ js ''{oo''),
         utf8_encode (js ''ps'' @ [0x0A] @ js ''{"jsonrpc":"2.0","id":2,"result":{}}'' @ [0x0A])]
        new_ServerHandler
      = process_lines [js ''{"jsonrpc":"2.0","id":1,"result":{}}'', js ''{"jsonrpc":"2.0","id":2,"result":{}}'']
          new_ServerHandler\<close>
proof -
  have h1: \<open>JSON_parse (js ''{oops'') = None \<or> trim (js ''{oops'') = []\<close>
    by (simp add: malformed_oops)
  have h2: \<open>0x0A \<notin> set (js ''{oops'')\<close>
    by (simp add: js_def)
  have h3: \<open>\<forall>l \<in> set ([js ''{"jsonrpc":"2.0","id":1,"result":{}}''] @ [js ''{"jsonrpc":"2.0","id":2,"result":{}}'']). 0x0A \<notin> set l\<close>
    by (simp add: js_def)
  have h4: "buffer new_ServerHandler = []"
    by (simp add: new_ServerHandler_def)
  have h5: \<open>concat (map toString
        [utf8_encode (js ''{"jsonrpc":"2.0","id":1,"result":{}}'' @ [0x0A] @ js ''{oo''),
         utf8_encode (js ''ps'' @ [0x0A] @ js ''{"jsonrpc":"2.0","id":2,"result":{}}'' @ [0x0A])])
      = concat (map (\<lambda>l. l @ [0x0A])
          ([js ''{"jsonrpc":"2.0","id":1,"result":{}}''] @ [js ''{oops''] @ [js ''{"jsonrpc":"2.0","id":2,"result":{}}'']))\<close>
    by (simp add: utf8_eval js_def)
  show ?thesis
    using malformed_line_is_skipped [OF h1 h2 h3 h4 h5] malformed_oops by simp
qed

text \<open>A line that is not JSON arrives: the state does not change, and nothing is printed.\<close>

theorem malformed_line_counterexample:
  \<open>JSON_parse (js ''{oops'') = None
   \<and> handleData (utf8_encode (js ''{oops'' @ [0x0A])) new_ServerHandler = new_ServerHandler
   \<and> out (handleData (utf8_encode (js ''{oops'' @ [0x0A])) new_ServerHandler) = []\<close>
  by (simp add: json_eval utf8_eval client_eval Let_def)

subsection \<open>The key of a frame\<close>

lemma route_value_by_id:
  "v \<noteq> JNull \<Longrightarrow> json_member v (js ''id'') = Some i \<Longrightarrow> truthy (Some i) \<Longrightarrow> route_value v = Inr i"
  by (cases v) (simp_all add: route_value_def read_property_def)

lemma route_value_by_method:
  "v \<noteq> JNull \<Longrightarrow> \<not> truthy (json_member v (js ''id'')) \<Longrightarrow> json_member v (js ''method'') = Some m \<Longrightarrow>
   truthy (Some m) \<Longrightarrow> route_value v = Inr m"
  by (cases v) (simp_all add: route_value_def read_property_def)

lemma route_value_neither:
  "v \<noteq> JNull \<Longrightarrow> \<not> truthy (json_member v (js ''id'')) \<Longrightarrow> \<not> truthy (json_member v (js ''method'')) \<Longrightarrow>
   route_value v = Inr (JStr [])"
  by (cases v) (simp_all add: route_value_def read_property_def)

text \<open>
  C6 fails on the code at the id \<open>0\<close>, and at a request that carries an id. The key of
  a frame is the value of \<open>responseObj.id || responseObj.method || ''\<close>. The id \<open>0\<close> is
  falsy: a response with the id \<open>0\<close> is looked up under the empty string, so with a wait
  registered for the id \<open>0\<close> the response is parsed and validated, no handler is called,
  and the promise stays pending; the same exchange with the id \<open>1\<close> calls the closure and
  resolves the promise. A truthy id comes before the method: a request with the id \<open>7\<close>
  and the method \<open>sampling/createMessage\<close> is looked up under \<open>7\<close>, and the handler
  registered under the method name is not called; the same request with the id \<open>0\<close>
  reaches it.
\<close>

theorem routing_by_id_or_method:
  \<open>JSON_parse (js ''{"jsonrpc":"2.0","id":0,"result":{}}'') =
      Some (JObj [(js ''jsonrpc'', JStr (js ''2.0'')), (js ''id'', JNum 0), (js ''result'', JObj [])])
   \<and> handlers (snd (waitForResponse (KNum 0) DEMO_TIMEOUT new_ServerHandler)) (KNum 0) = Some (Waiter 0)
   \<and> route_value (JObj [(js ''jsonrpc'', JStr (js ''2.0'')), (js ''id'', JNum 0), (js ''result'', JObj [])])
        = Inr (JStr [])
   \<and> calls (handleData (utf8_encode (js ''{"jsonrpc":"2.0","id":0,"result":{}}'' @ [0x0A]))
        (snd (waitForResponse (KNum 0) DEMO_TIMEOUT new_ServerHandler))) = []
   \<and> outcome (waits (handleData (utf8_encode (js ''{"jsonrpc":"2.0","id":0,"result":{}}'' @ [0x0A]))
        (snd (waitForResponse (KNum 0) DEMO_TIMEOUT new_ServerHandler))) ! 0) = Pending
   \<and> calls (handleData (utf8_encode (js ''{"jsonrpc":"2.0","id":1,"result":{}}'' @ [0x0A]))
        (snd (waitForResponse (KNum 1) DEMO_TIMEOUT new_ServerHandler)))
        = [(Waiter 0, JObj [(js ''jsonrpc'', JStr (js ''2.0'')), (js ''id'', JNum 1), (js ''result'', JObj [])])]
   \<and> outcome (waits (handleData (utf8_encode (js ''{"jsonrpc":"2.0","id":1,"result":{}}'' @ [0x0A]))
        (snd (waitForResponse (KNum 1) DEMO_TIMEOUT new_ServerHandler))) ! 0)
        = Resolved (JObj [(js ''jsonrpc'', JStr (js ''2.0'')), (js ''id'', JNum 1), (js ''result'', JObj [])])
   \<and> calls (handleData
        (utf8_encode (js ''{"jsonrpc":"2.0","id":7,"method":"sampling/createMessage","params":{}}'' @ [0x0A]))
        (onResponse (KStr (js ''sampling/createMessage'')) (Callback 0 (\<lambda>v. None)) new_ServerHandler)) = []
   \<and> calls (handleData
        (utf8_encode (js ''{"jsonrpc":"2.0","id":0,"method":"sampling/createMessage","params":{}}'' @ [0x0A]))
        (onResponse (KStr (js ''sampling/createMessage'')) (Callback 0 (\<lambda>v. None)) new_ServerHandler))
        = [(Callback 0 (\<lambda>v. None),
            JObj [(js ''jsonrpc'', JStr (js ''2.0'')), (js ''id'', JNum 0),
                  (js ''method'', JStr (js ''sampling/createMessage'')), (js ''params'', JObj [])])]\<close>
  by (simp add: json_eval utf8_eval route_eval client_eval Let_def)

subsection \<open>A chunk that ends inside a character\<close>

text \<open>
  C1 fails on the code where a chunk ends inside a character. \<open>send\<close> writes the call
  of \<open>deleteUser\<close> for the user id U+00E9 (the bytes C3 A9 in UTF-8) as one line. Fed to
  \<open>handleData\<close> in one chunk, the line gives the handler the message that was sent. Fed in two chunks, cut
  between the two bytes of the character, each chunk is decoded on its own, each half
  becomes U+FFFD, and the handler is given a message with another user id.
\<close>

theorem chunk_boundary_inside_character:
  \<open>send (createMessage_toolCall (js ''deleteUser'') (JObj [(js ''userId'', JStr [0xE9])]) (JNum 3))
       (start new_ServerHandler)
     = Some ((start new_ServerHandler)\<lparr>stdin := Some
         [utf8_encode (js ''{"jsonrpc":"2.0","id":3,"method":"tools/call","params":{"name":"deleteUser","arguments":{"userId":"'')
          @ [0xC3, 0xA9] @ utf8_encode (js ''"}}}'' @ [0x0A])]\<rparr>)
   \<and> calls (handleData
         (utf8_encode (js ''{"jsonrpc":"2.0","id":3,"method":"tools/call","params":{"name":"deleteUser","arguments":{"userId":"'')
          @ [0xC3, 0xA9] @ utf8_encode (js ''"}}}'' @ [0x0A]))
         (onResponse (KNum 3) (Callback 0 (\<lambda>v. None)) new_ServerHandler))
     = [(Callback 0 (\<lambda>v. None),
         createMessage_toolCall (js ''deleteUser'') (JObj [(js ''userId'', JStr [0xE9])]) (JNum 3))]
   \<and> calls (handleData ([0xA9] @ utf8_encode (js ''"}}}'' @ [0x0A]))
        (handleData
          (utf8_encode (js ''{"jsonrpc":"2.0","id":3,"method":"tools/call","params":{"name":"deleteUser","arguments":{"userId":"'')
           @ [0xC3])
          (onResponse (KNum 3) (Callback 0 (\<lambda>v. None)) new_ServerHandler)))
     = [(Callback 0 (\<lambda>v. None),
         createMessage_toolCall (js ''deleteUser'') (JObj [(js ''userId'', JStr [0xFFFD, 0xFFFD])]) (JNum 3))]\<close>
  by (simp add: json_eval utf8_eval route_eval client_eval Let_def send_def start_def
      createMessage_toolCall_def quote_def quote_unit_def show_number_def show_int_def digits.simps)

end
